theory Spec2Isabelle
  imports Main
begin

section \<open>The objectives table\<close>

text \<open>
  One row of the table \<^verbatim>\<open>objectives\<close> created in \<^verbatim>\<open>app.js\<close>. The two
  \<^verbatim>\<open>TEXT\<close> key columns and the frequency are strings; a nullable \<^verbatim>\<open>INTEGER\<close>
  column is an \<open>int option\<close> with \<open>None\<close> for \<^verbatim>\<open>NULL\<close>. The column
  \<^verbatim>\<open>streak\<close> is only ever written with a number (0 by \<^verbatim>\<open>createObjective\<close>), so it
  is an \<open>int\<close>.

  The column \<^verbatim>\<open>lastStreakDay\<close> holds the date-only text \<^verbatim>\<open>YYYY-MM-DD\<close> that the
  submit handler writes. Such a text names one UTC calendar day, and the row keeps the
  number of that day (days since 1970-01-01, the \<open>Day\<close> of ECMA-262) in its place.
\<close>

record objective =
  userId :: string
  name :: string
  frequency :: string
  lastSubmitted :: "int option"
  streak :: int
  lastStreakDay :: "int option"
  lastReminded :: "int option"

text \<open>
  The table is the list of its rows, in the order a \<^verbatim>\<open>SELECT *\<close> returns them. The
  primary key \<^verbatim>\<open>(userId, name)\<close> makes the keys of a table distinct.
\<close>

type_synonym db = "objective list"

definition key :: "objective \<Rightarrow> string \<times> string" where
  "key obj = (userId obj, name obj)"

definition primaryKey :: "db \<Rightarrow> bool" where
  "primaryKey d = distinct (map key d)"

definition hasKey :: "string \<Rightarrow> string \<Rightarrow> objective \<Rightarrow> bool" where
  "hasKey u n obj = (userId obj = u \<and> name obj = n)"

definition getObjective :: "string \<Rightarrow> string \<Rightarrow> db \<Rightarrow> objective option" where
  "getObjective u n d = find (hasKey u n) d"

text \<open>
  \<^verbatim>\<open>INSERT ... ON CONFLICT(userId, name) DO UPDATE SET\<close> every other column: the row
  with the key of \<open>obj\<close> becomes \<open>obj\<close>, and a key that is not there is appended.
\<close>

definition upsertObjective :: "objective \<Rightarrow> db \<Rightarrow> db" where
  "upsertObjective obj d =
     (if list_ex (hasKey (userId obj) (name obj)) d
      then map (\<lambda>row. if hasKey (userId obj) (name obj) row
                       then row\<lparr>frequency := frequency obj,
                                lastSubmitted := lastSubmitted obj,
                                streak := streak obj,
                                lastStreakDay := lastStreakDay obj,
                                lastReminded := lastReminded obj\<rparr>
                       else row) d
      else d @ [obj])"

definition createObjective :: "string \<Rightarrow> string \<Rightarrow> string \<Rightarrow> db \<Rightarrow> db" where
  "createObjective u n f d =
     d @ [\<lparr>userId = u, name = n, frequency = f, lastSubmitted = None, streak = 0,
           lastStreakDay = None, lastReminded = None\<rparr>]"

definition deleteObjective :: "string \<Rightarrow> string \<Rightarrow> db \<Rightarrow> db" where
  "deleteObjective u n d = filter (\<lambda>row. \<not> hasKey u n row) d"

text \<open>\<^verbatim>\<open>UPDATE objectives SET lastReminded = ? WHERE userId = ? AND name = ?\<close>\<close>

definition setLastReminded :: "int \<Rightarrow> string \<Rightarrow> string \<Rightarrow> db \<Rightarrow> db" where
  "setLastReminded t u n d =
     map (\<lambda>row. if hasKey u n row then row\<lparr>lastReminded := Some t\<rparr> else row) d"

section \<open>Time and dates\<close>

text \<open>
  A time value is the number of milliseconds since 1970-01-01T00:00:00Z. The wall clock
  (\<^verbatim>\<open>Date.now()\<close>, \<^verbatim>\<open>new Date()\<close>) reads the milliseconds elapsed since then, a natural
  number; stored columns and computed values are integers. All values that occur are far
  below \<open>2^53\<close>, where the arithmetic of JavaScript numbers on integers is exact.
\<close>

definition msPerDay :: int where
  "msPerDay = 24 * 60 * 60 * 1000"

text \<open>The calendar of ECMA-262 (section "Time Values and Time Range" and following).\<close>

definition Day :: "int \<Rightarrow> int" where
  "Day t = t div msPerDay"

definition DaysInYear :: "int \<Rightarrow> int" where
  "DaysInYear y =
     (if y mod 4 \<noteq> 0 then 365
      else if y mod 100 \<noteq> 0 then 366
      else if y mod 400 \<noteq> 0 then 365
      else 366)"

definition DayFromYear :: "int \<Rightarrow> int" where
  "DayFromYear y =
     365 * (y - 1970) + (y - 1969) div 4 - (y - 1901) div 100 + (y - 1601) div 400"

text \<open>
  \<open>YearFromTime t\<close> is the largest year \<open>y\<close> with \<open>DayFromYear y \<le> Day t\<close>. The
  search for it starts at a year that is not below it and walks down.
\<close>

function yearDown :: "int \<Rightarrow> int \<Rightarrow> int" where
  "yearDown d y = (if DayFromYear y \<le> d then y else yearDown d (y - 1))"
  by pat_completeness auto
termination
proof (relation "measure (\<lambda>(d, y). nat (DayFromYear y - d))")
  show "wf (measure (\<lambda>(d, y). nat (DayFromYear y - d)))" by simp
next
  fix d y :: int
  assume larger: "\<not> DayFromYear y \<le> d"
  have a: "(y - 1 - 1969) div 4 \<le> (y - 1969) div 4"
    by (rule zdiv_mono1) simp_all
  have "(y - 1901) div 100 \<le> (y - 1 - 1901 + 100) div 100"
    by (rule zdiv_mono1) simp_all
  then have b: "(y - 1901) div 100 \<le> (y - 1 - 1901) div 100 + 1"
    by simp
  have c: "(y - 1 - 1601) div 400 \<le> (y - 1601) div 400"
    by (rule zdiv_mono1) simp_all
  from a b c have "DayFromYear (y - 1) < DayFromYear y"
    unfolding DayFromYear_def by (simp add: algebra_simps)
  with larger show "((d, y - 1), (d, y)) \<in> measure (\<lambda>(d, y). nat (DayFromYear y - d))"
    by simp
qed

declare yearDown.simps [simp del]

definition YearFromDay :: "int \<Rightarrow> int" where
  "YearFromDay d = yearDown d (if 0 \<le> d then 1970 + d div 365 else 1969)"

definition YearFromTime :: "int \<Rightarrow> int" where
  "YearFromTime t = YearFromDay (Day t)"

definition InLeapYear :: "int \<Rightarrow> int" where
  "InLeapYear t = (if DaysInYear (YearFromTime t) = 366 then 1 else 0)"

definition DayWithinYear :: "int \<Rightarrow> int" where
  "DayWithinYear t = Day t - DayFromYear (YearFromTime t)"

definition MonthFromTime :: "int \<Rightarrow> int" where
  "MonthFromTime t =
     (let d = DayWithinYear t; l = InLeapYear t in
      if d < 31 then 0
      else if d < 59 + l then 1
      else if d < 90 + l then 2
      else if d < 120 + l then 3
      else if d < 151 + l then 4
      else if d < 181 + l then 5
      else if d < 212 + l then 6
      else if d < 243 + l then 7
      else if d < 273 + l then 8
      else if d < 304 + l then 9
      else if d < 334 + l then 10
      else 11)"

text \<open>
  \<^verbatim>\<open>getMonth()\<close> and \<^verbatim>\<open>getFullYear()\<close> read a date in the local time of the process:
  \<open>tz t\<close> is the offset of local time from UTC at the time value \<open>t\<close>, in milliseconds
  (\<open>LocalTZA\<close>), and is \<open>0\<close> for a process that runs in UTC.
\<close>

definition LocalTime :: "(int \<Rightarrow> int) \<Rightarrow> int \<Rightarrow> int" where
  "LocalTime tz t = t + tz t"

definition getMonth :: "(int \<Rightarrow> int) \<Rightarrow> int \<Rightarrow> int" where
  "getMonth tz t = MonthFromTime (LocalTime tz t)"

definition getFullYear :: "(int \<Rightarrow> int) \<Rightarrow> int \<Rightarrow> int" where
  "getFullYear tz t = YearFromTime (LocalTime tz t)"

text \<open>
  \<^verbatim>\<open>new Date('YYYY-MM-DD')\<close>: a date-only text is read as midnight UTC of its day.
  \<^verbatim>\<open>toISOString().split('T')[0]\<close>: the UTC day of a time value, as date-only text.
\<close>

definition parseISODate :: "int \<Rightarrow> int" where
  "parseISODate day = day * msPerDay"

definition toISODate :: "int \<Rightarrow> int" where
  "toISODate t = Day t"

section \<open>The submit command\<close>

text \<open>
  \<^verbatim>\<open>if (obj.lastSubmitted)\<close> tests a column value for truthiness: \<^verbatim>\<open>null\<close> and \<^verbatim>\<open>0\<close>
  are falsy, every other number is truthy.
\<close>

definition truthy :: "int option \<Rightarrow> bool" where
  "truthy v = (case v of None \<Rightarrow> False | Some n \<Rightarrow> n \<noteq> 0)"

text \<open>
  The three assignments to \<^verbatim>\<open>nextAllowed\<close>, which the handler runs before the
  cooldown test on the stored \<^verbatim>\<open>lastSubmitted\<close> and once more after the write on the
  new one: \<open>n0\<close> is the value of the variable before them, \<open>f\<close> the frequency and
  \<open>ls\<close> the value of \<^verbatim>\<open>obj.lastSubmitted\<close>.
\<close>

definition assignNextAllowed :: "string \<Rightarrow> int \<Rightarrow> int \<Rightarrow> int" where
  "assignNextAllowed f ls n0 =
     (let n1 = (if f = ''daily'' then ls + 22 * 60 * 60 * 1000 else n0);
          n2 = (if f = ''weekly'' then ls + (7 * 24 - 6) * 60 * 60 * 1000 else n1);
          n3 = (if f = ''monthly'' then ls + (30 * 24 - 6) * 60 * 60 * 1000 else n2)
      in n3)"

text \<open>
  The value of \<^verbatim>\<open>nextAllowed\<close> at the cooldown test: it starts at 0 and the
  assignments run only under \<^verbatim>\<open>if (obj.lastSubmitted)\<close>.
\<close>

definition nextAllowedBefore :: "objective \<Rightarrow> int" where
  "nextAllowedBefore obj =
     (case lastSubmitted obj of
        None \<Rightarrow> 0
      | Some ls \<Rightarrow> if ls \<noteq> 0 then assignNextAllowed (frequency obj) ls 0 else 0)"

text \<open>
  The streak test. \<open>today\<close> is the time value of \<^verbatim>\<open>new Date()\<close> and \<open>lsd\<close> the
  stored \<^verbatim>\<open>lastStreakDay\<close>; a stored date is a non-empty text, hence truthy, and
  \<^verbatim>\<open>null\<close> leaves \<^verbatim>\<open>isConsecutive\<close> false. \<^verbatim>\<open>Math.floor\<close> of a quotient is
  \<open>div\<close> on integers (the floating-point quotient of two integers of this size has
  floor 1 exactly when the exact quotient has).
\<close>

definition isConsecutive :: "(int \<Rightarrow> int) \<Rightarrow> string \<Rightarrow> int \<Rightarrow> int option \<Rightarrow> bool" where
  "isConsecutive tz f today lsd =
     (case lsd of
        None \<Rightarrow> False
      | Some day \<Rightarrow>
          (let lastStreakDay = parseISODate day in
           if f = ''daily''
           then (today - lastStreakDay) div (24 * 60 * 60 * 1000) = 1
           else if f = ''weekly''
           then (today - lastStreakDay) div (7 * 24 * 60 * 60 * 1000) = 1
           else if f = ''monthly''
           then getMonth tz today = getMonth tz lastStreakDay + 1 \<and>
                getFullYear tz today = getFullYear tz lastStreakDay
           else False))"

text \<open>
  The handler from the cooldown test to the record it writes, on the row \<open>obj\<close> it has
  read: \<open>now\<close> is the reading of \<^verbatim>\<open>Date.now()\<close>, \<open>today\<close> that of the later
  \<^verbatim>\<open>new Date()\<close>. It either answers with the cooldown message, which names
  \<^verbatim>\<open>nextAllowed\<close>, or yields the record to upsert and the \<^verbatim>\<open>nextAllowed\<close> of the
  reply.
\<close>

datatype outcome = CooldownActive int | Accepted objective int

definition submitObjective :: "(int \<Rightarrow> int) \<Rightarrow> nat \<Rightarrow> nat \<Rightarrow> objective \<Rightarrow> outcome" where
  "submitObjective tz now today obj =
     (let nextAllowed = nextAllowedBefore obj in
      if truthy (lastSubmitted obj) \<and> int now < nextAllowed
      then CooldownActive nextAllowed
      else
        (let obj1 = obj\<lparr>lastSubmitted := Some (int now)\<rparr>;
             consecutive = isConsecutive tz (frequency obj1) (int today) (lastStreakDay obj1);
             obj2 = (if consecutive
                     then obj1\<lparr>streak := (if streak obj1 \<noteq> 0 then streak obj1 else 0) + 1\<rparr>
                     else obj1\<lparr>streak := 1\<rparr>);
             obj3 = obj2\<lparr>lastStreakDay := Some (toISODate (int today))\<rparr>
         in Accepted obj3
              (assignNextAllowed (frequency obj3) (int now) nextAllowed)))"

text \<open>
  The replies of the submit command. The messages of the source are built from these
  data: the cooldown message prints \<^verbatim>\<open>Math.floor(nextAllowed / 1000)\<close>, the completion
  embeds show the streak when it is above 3, the image, the user and the same timestamp.
\<close>

datatype reply =
    MissingBoth
  | MissingImage
  | MissingObjective
  | NotFound string
  | AlreadySubmitted string int
  | Completed string "int option" string string int

definition falsyString :: "string option \<Rightarrow> bool" where
  "falsyString s = (case s of None \<Rightarrow> True | Some v \<Rightarrow> v = [])"

text \<open>
  \<open>attachment\<close> is the URL of the attachment the handler resolved (\<open>None\<close> when it
  found none) and \<open>objective\<close> the trimmed option value (\<open>None\<close> when absent).
\<close>

definition submit ::
  "(int \<Rightarrow> int) \<Rightarrow> nat \<Rightarrow> nat \<Rightarrow> string \<Rightarrow> string option \<Rightarrow> string option \<Rightarrow> db \<Rightarrow> reply \<times> db"
where
  "submit tz now today uid attachment objective d =
     (case attachment of
        None \<Rightarrow> if falsyString objective then (MissingBoth, d) else (MissingImage, d)
      | Some url \<Rightarrow>
          (case objective of
             None \<Rightarrow> (MissingObjective, d)
           | Some oname \<Rightarrow>
               if oname = [] then (MissingObjective, d)
               else
                 (case getObjective uid oname d of
                    None \<Rightarrow> (NotFound oname, d)
                  | Some obj \<Rightarrow>
                      (case submitObjective tz now today obj of
                         CooldownActive nextAllowed \<Rightarrow>
                           (AlreadySubmitted oname (nextAllowed div 1000), d)
                       | Accepted obj' nextAllowed \<Rightarrow>
                           (Completed oname
                              (if 3 < streak obj' then Some (streak obj') else None)
                              url uid (nextAllowed div 1000),
                            upsertObjective obj' d)))))"

section \<open>The reminder job\<close>

text \<open>
  The rows the job selects: \<open>cutoff\<close> is bound to both parameters of the query.
\<close>

definition isStale :: "int \<Rightarrow> objective \<Rightarrow> bool" where
  "isStale cutoff obj =
     ((case lastSubmitted obj of None \<Rightarrow> True | Some ls \<Rightarrow> ls < cutoff) \<and>
      (case lastReminded obj of None \<Rightarrow> True | Some lr \<Rightarrow> lr < cutoff))"

definition staleObjectives :: "nat \<Rightarrow> db \<Rightarrow> objective list" where
  "staleObjectives now d = filter (isStale (int now - 24 * 60 * 60 * 1000)) d"

text \<open>
  What sending the message to the owner of one selected row does:
  \<^verbatim>\<open>users.fetch\<close> or \<^verbatim>\<open>send\<close> throws, \<^verbatim>\<open>users.fetch\<close> yields no user, or the
  message is sent. The outside world is the function \<open>dm\<close> from the selected row to
  one of these.
\<close>

datatype delivery = Throws | NoUser | Sent

text \<open>
  The body of the loop on one row: the state is the table and the log of the user ids
  that \<^verbatim>\<open>console.error\<close> reports.
\<close>

definition remindOne :: "(objective \<Rightarrow> delivery) \<Rightarrow> nat \<Rightarrow> objective \<Rightarrow> db \<times> string list \<Rightarrow> db \<times> string list" where
  "remindOne dm now obj st =
     (case dm obj of
        Sent \<Rightarrow> (setLastReminded (int now) (userId obj) (name obj) (fst st), snd st)
      | NoUser \<Rightarrow> st
      | Throws \<Rightarrow> (fst st, snd st @ [userId obj]))"

fun remindAll :: "(objective \<Rightarrow> delivery) \<Rightarrow> nat \<Rightarrow> objective list \<Rightarrow> db \<times> string list \<Rightarrow> db \<times> string list" where
  "remindAll dm now [] st = st"
| "remindAll dm now (obj # objs) st = remindAll dm now objs (remindOne dm now obj st)"

definition sweep :: "(objective \<Rightarrow> delivery) \<Rightarrow> nat \<Rightarrow> db \<Rightarrow> db \<times> string list" where
  "sweep dm now d = remindAll dm now (staleObjectives now d) (d, [])"

section \<open>Runs and example data\<close>

text \<open>A run of submit commands of one user for one objective, each with an image.\<close>

fun submitAll :: "(int \<Rightarrow> int) \<Rightarrow> (nat \<times> nat) list \<Rightarrow> string \<Rightarrow> string \<Rightarrow> string \<Rightarrow> db \<Rightarrow> db" where
  "submitAll tz [] uid url oname d = d"
| "submitAll tz ((now, today) # ts) uid url oname d =
     submitAll tz ts uid url oname (snd (submit tz now today uid (Some url) (Some oname) d))"

definition msPerHour :: int where
  "msPerHour = 60 * 60 * 1000"

text \<open>A process in UTC, and one five hours behind it.\<close>

definition utc :: "int \<Rightarrow> int" where
  "utc t = 0"

definition behind5 :: "int \<Rightarrow> int" where
  "behind5 t = - 5 * msPerHour"

text \<open>
  A row last submitted at 2023-11-14T22:13:20Z, which is day 19675, and the same row
  with other frequencies.
\<close>

definition dailyRow :: objective where
  "dailyRow = \<lparr>userId = ''42'', name = ''run'', frequency = ''daily'',
               lastSubmitted = Some 1700000000000, streak = 4,
               lastStreakDay = Some 19675, lastReminded = None\<rparr>"

definition weeklyRow :: objective where
  "weeklyRow = dailyRow\<lparr>frequency := ''weekly''\<rparr>"

definition yearlyRow :: objective where
  "yearlyRow = dailyRow\<lparr>frequency := ''yearly''\<rparr>"

text \<open>A row whose \<^verbatim>\<open>lastSubmitted\<close> is the epoch itself.\<close>

definition epochRow :: objective where
  "epochRow = dailyRow\<lparr>lastSubmitted := Some 0, lastStreakDay := Some 0\<rparr>"

text \<open>A second user, never reminded, whose messages cannot be delivered.\<close>

definition otherRow :: objective where
  "otherRow = \<lparr>userId = ''77'', name = ''read'', frequency = ''weekly'',
               lastSubmitted = None, streak = 0,
               lastStreakDay = None, lastReminded = None\<rparr>"

definition onlyTo42 :: "objective \<Rightarrow> delivery" where
  "onlyTo42 obj = (if userId obj = ''42'' then Sent else Throws)"

section \<open>Tables of reminded rows\<close>

text \<open>The table in which the rows of \<open>S\<close> have been marked as reminded at \<open>now\<close>.\<close>

definition remindedRows :: "nat \<Rightarrow> objective set \<Rightarrow> db \<Rightarrow> db" where
  "remindedRows now S d =
     map (\<lambda>row. if row \<in> S then row\<lparr>lastReminded := Some (int now)\<rparr> else row) d"

text \<open>
  What the whole job leaves of one row: a selected row whose message was sent is marked,
  every other row is as it was.
\<close>

definition afterSweep :: "(objective \<Rightarrow> delivery) \<Rightarrow> nat \<Rightarrow> objective \<Rightarrow> objective" where
  "afterSweep dm now row =
     (if isStale (int now - 24 * 60 * 60 * 1000) row \<and> dm row = Sent
      then row\<lparr>lastReminded := Some (int now)\<rparr> else row)"

section \<open>Facts about the calendar\<close>

lemma div_succ:
  fixes x c :: int
  assumes "1 < c"
  shows "(x + 1) div c = x div c + (if (x + 1) mod c = 0 then 1 else 0)"
proof (cases "x mod c = c - 1")
  case True
  have "c * (x div c) + x mod c = x" by (rule mult_div_mod_eq)
  with True have "c * (x div c) + (c - 1) = x" by simp
  then have eq: "x + 1 = c * (x div c + 1) + 0" by (simp add: distrib_left)
  have "(x + 1) div c = x div c + 1"
    using assms by (intro int_div_pos_eq [OF eq]) simp_all
  moreover have "(x + 1) mod c = 0"
    using assms by (intro int_mod_pos_eq [OF eq]) simp_all
  ultimately show ?thesis by simp
next
  case False
  have r: "0 \<le> x mod c" "x mod c < c" using assms by simp_all
  with False have lt: "x mod c + 1 < c" by simp
  have "x = c * (x div c) + x mod c" by simp
  then have eq: "x + 1 = c * (x div c) + (x mod c + 1)" by simp
  have "(x + 1) div c = x div c"
    using r lt by (intro int_div_pos_eq [OF eq]) simp_all
  moreover have "(x + 1) mod c = x mod c + 1"
    using r lt by (intro int_mod_pos_eq [OF eq]) simp_all
  ultimately show ?thesis using r by simp
qed

lemma mod_shift:
  fixes y :: int
  shows "(y - 1968) mod 4 = y mod 4" "(y - 1900) mod 100 = y mod 100"
    "(y - 1600) mod 400 = y mod 400"
  using mod_mult_self1 [of y "- 492" 4] mod_mult_self1 [of y "- 19" 100]
    mod_mult_self1 [of y "- 4" 400]
  by simp_all

lemma mod_chain:
  fixes y :: int
  shows "y mod 100 = 0 \<Longrightarrow> y mod 4 = 0" "y mod 400 = 0 \<Longrightarrow> y mod 100 = 0"
proof -
  have "(4::int) dvd 100" "(100::int) dvd 400" by simp_all
  then show "y mod 100 = 0 \<Longrightarrow> y mod 4 = 0" "y mod 400 = 0 \<Longrightarrow> y mod 100 = 0"
    by (auto simp only: mod_eq_0_iff_dvd elim: dvd_trans)
qed

lemma leap_steps:
  fixes y :: int
  shows "(y + 1 - 1969) div 4 = (y - 1969) div 4 + (if y mod 4 = 0 then 1 else 0)"
    "(y + 1 - 1901) div 100 = (y - 1901) div 100 + (if y mod 100 = 0 then 1 else 0)"
    "(y + 1 - 1601) div 400 = (y - 1601) div 400 + (if y mod 400 = 0 then 1 else 0)"
proof -
  have e: "y + 1 - 1969 = y - 1969 + 1" "y - 1969 + 1 = y - 1968"
    "y + 1 - 1901 = y - 1901 + 1" "y - 1901 + 1 = y - 1900"
    "y + 1 - 1601 = y - 1601 + 1" "y - 1601 + 1 = y - 1600"
    by simp_all
  from div_succ [of 4 "y - 1969"]
  show "(y + 1 - 1969) div 4 = (y - 1969) div 4 + (if y mod 4 = 0 then 1 else 0)"
    unfolding e(1) unfolding e(2) mod_shift by simp
  from div_succ [of 100 "y - 1901"]
  show "(y + 1 - 1901) div 100 = (y - 1901) div 100 + (if y mod 100 = 0 then 1 else 0)"
    unfolding e(3) unfolding e(4) mod_shift by simp
  from div_succ [of 400 "y - 1601"]
  show "(y + 1 - 1601) div 400 = (y - 1601) div 400 + (if y mod 400 = 0 then 1 else 0)"
    unfolding e(5) unfolding e(6) mod_shift by simp
qed

text \<open>The days of the years add up to \<open>DayFromYear\<close>.\<close>

lemma DayFromYear_next: "DayFromYear (y + 1) = DayFromYear y + DaysInYear y"
proof -
  have lin: "365 * (y + 1 - 1970) = 365 * (y - 1970) + (365::int)" by simp
  show ?thesis
    unfolding DayFromYear_def DaysInYear_def leap_steps lin
    using mod_chain [of y]
    by (cases "y mod 4 = 0"; cases "y mod 100 = 0"; cases "y mod 400 = 0"; simp)
qed

lemma DaysInYear_range: "365 \<le> DaysInYear y \<and> DaysInYear y \<le> 366"
  by (simp add: DaysInYear_def)

lemma DayFromYear_mono: "y \<le> z \<Longrightarrow> DayFromYear y \<le> DayFromYear z"
proof (induction z rule: int_ge_induct)
  case base
  show ?case by simp
next
  case (step i)
  with DayFromYear_next [of i] DaysInYear_range [of i] show ?case by simp
qed

lemma DayFromYear_lower: "0 \<le> k \<Longrightarrow> 365 * k \<le> DayFromYear (1970 + k)"
proof (induction k rule: int_ge_induct)
  case base
  show ?case by (simp add: DayFromYear_def)
next
  case (step i)
  from DayFromYear_next [of "1970 + i"] DaysInYear_range [of "1970 + i"] step.IH
  show ?case by (simp add: algebra_simps)
qed

lemma DayFromYear_start:
  assumes "0 \<le> d"
  shows "d < DayFromYear (1970 + d div 365 + 1)"
proof -
  define q where "q = d div 365"
  define r where "r = d mod 365"
  define D where "D = DayFromYear (1970 + q + 1)"
  have "0 \<le> q + 1" using assms by (simp add: q_def pos_imp_zdiv_nonneg_iff)
  from DayFromYear_lower [OF this] have "365 * (q + 1) \<le> D"
    by (simp add: D_def add.assoc)
  moreover have "r < 365" by (simp add: r_def)
  moreover have "d = 365 * q + r" by (simp add: q_def r_def)
  ultimately have "d < D" by (simp add: distrib_left)
  then show ?thesis by (simp add: D_def q_def)
qed

lemma yearDown_le: "DayFromYear (yearDown d y) \<le> d"
proof (induction d y rule: yearDown.induct)
  case (1 d y)
  then show ?case by (subst yearDown.simps) simp
qed

lemma yearDown_lt: "d < DayFromYear (y + 1) \<Longrightarrow> d < DayFromYear (yearDown d y + 1)"
proof (induction d y rule: yearDown.induct)
  case (1 d y)
  show ?case
  proof (cases "DayFromYear y \<le> d")
    case True
    with "1.prems" show ?thesis by (subst yearDown.simps) simp
  next
    case False
    then have "d < DayFromYear (y - 1 + 1)" by simp
    from "1.IH" [OF False this] False show ?thesis by (subst yearDown.simps) simp
  qed
qed

text \<open>
  The search finds the year of a day: the year begins on or before the day and the next
  year after it, so it is the largest year that begins on or before the day, and the day
  within the year is below the length of the year.
\<close>

lemma YearFromDay_bounds:
  "DayFromYear (YearFromDay d) \<le> d \<and> d < DayFromYear (YearFromDay d + 1)"
proof (cases "0 \<le> d")
  case True
  with DayFromYear_start [OF True] yearDown_lt [of d "1970 + d div 365"]
  show ?thesis by (simp add: YearFromDay_def yearDown_le)
next
  case False
  then have "d < DayFromYear (1969 + 1)" by (simp add: DayFromYear_def)
  from yearDown_lt [OF this] False show ?thesis
    by (simp add: YearFromDay_def yearDown_le)
qed

lemma YearFromDay_largest:
  assumes "DayFromYear y \<le> d"
  shows "y \<le> YearFromDay d"
proof (rule ccontr)
  assume "\<not> y \<le> YearFromDay d"
  then have "YearFromDay d + 1 \<le> y" by simp
  then have "DayFromYear (YearFromDay d + 1) \<le> DayFromYear y" by (rule DayFromYear_mono)
  with assms YearFromDay_bounds [of d] show False by simp
qed

lemma DayWithinYear_range:
  "0 \<le> DayWithinYear t \<and> DayWithinYear t < DaysInYear (YearFromTime t)"
  using YearFromDay_bounds [of "Day t"] DayFromYear_next [of "YearFromDay (Day t)"]
  by (simp add: DayWithinYear_def YearFromTime_def)

section \<open>Facts about the table\<close>

lemma hasKey_key: "hasKey (userId obj) (name obj) row = (key row = key obj)"
  by (auto simp: hasKey_def key_def)

lemma primaryKey_row:
  assumes "primaryKey d" and "obj \<in> set d" and "row \<in> set d"
  shows "(key row = key obj) = (row = obj)"
proof -
  from assms(1) have "inj_on key (set d)"
    by (simp add: primaryKey_def distinct_map)
  with assms(2,3) show ?thesis by (auto dest: inj_onD)
qed

lemma getObjective_row:
  assumes "primaryKey d" and "obj \<in> set d"
  shows "getObjective (userId obj) (name obj) d = Some obj"
  using assms
proof (induction d)
  case Nil
  then show ?case by simp
next
  case (Cons row rows)
  show ?case
  proof (cases "row = obj")
    case True
    then show ?thesis by (simp add: getObjective_def hasKey_def)
  next
    case False
    with Cons.prems have mem: "obj \<in> set rows" and pk: "primaryKey rows"
      and "key row \<notin> key ` set rows"
      by (simp_all add: primaryKey_def)
    then have "key row \<noteq> key obj" by auto
    then have "\<not> hasKey (userId obj) (name obj) row" by (simp add: hasKey_key)
    with Cons.IH [OF pk mem] show ?thesis by (simp add: getObjective_def)
  qed
qed

lemma find_map_key:
  assumes "\<And>row. P (f row) = P row"
  shows "find P (map f xs) = map_option f (find P xs)"
  using assms by (induction xs) simp_all

lemma getObjective_hasKey: "getObjective u n d = Some obj \<Longrightarrow> userId obj = u \<and> name obj = n"
  by (auto simp: getObjective_def find_Some_iff hasKey_def)

lemma getObjective_upsert:
  assumes "getObjective u n d = Some obj" and "userId obj' = u" and "name obj' = n"
  shows "getObjective u n (upsertObjective obj' d) = Some obj'"
proof -
  from assms(1) have ex: "list_ex (hasKey u n) d" and k: "hasKey u n obj"
    by (auto simp: getObjective_def list_ex_iff find_Some_iff)
  let ?f = "\<lambda>row. if hasKey u n row
                   then row\<lparr>frequency := frequency obj',
                            lastSubmitted := lastSubmitted obj',
                            streak := streak obj',
                            lastStreakDay := lastStreakDay obj',
                            lastReminded := lastReminded obj'\<rparr>
                   else row"
  have "find (hasKey u n) (map ?f d) = map_option ?f (find (hasKey u n) d)"
    by (rule find_map_key) (simp add: hasKey_def)
  moreover have "?f obj = obj'"
    using k assms(2,3) by (simp add: hasKey_def)
  ultimately show ?thesis
    using ex assms by (simp add: getObjective_def upsertObjective_def)
qed

section \<open>Facts about the cooldown and the streak\<close>

lemma assign_unknown:
  "f \<noteq> ''daily'' \<Longrightarrow> f \<noteq> ''weekly'' \<Longrightarrow> f \<noteq> ''monthly'' \<Longrightarrow> assignNextAllowed f ls n0 = n0"
  by (simp add: assignNextAllowed_def)

lemma assign_known:
  "assignNextAllowed ''daily'' ls n0 = ls + 22 * msPerHour"
  "assignNextAllowed ''weekly'' ls n0 = ls + 162 * msPerHour"
  "assignNextAllowed ''monthly'' ls n0 = ls + 714 * msPerHour"
  by (simp_all add: assignNextAllowed_def msPerHour_def)

lemma nextAllowedBefore_unknown:
  assumes "frequency obj \<noteq> ''daily''" and "frequency obj \<noteq> ''weekly''"
    and "frequency obj \<noteq> ''monthly''"
  shows "nextAllowedBefore obj = 0"
  using assms by (simp add: nextAllowedBefore_def assign_unknown split: option.splits)

lemma submitObjective_cooldown:
  "submitObjective tz now today obj = CooldownActive n \<longleftrightarrow>
     n = nextAllowedBefore obj \<and> int now < nextAllowedBefore obj"
proof (cases "truthy (lastSubmitted obj)")
  case True
  then show ?thesis
    by (auto simp: submitObjective_def Let_def)
next
  case False
  then have "nextAllowedBefore obj = 0"
    by (simp add: nextAllowedBefore_def truthy_def split: option.splits)
  with False show ?thesis
    by (simp add: submitObjective_def Let_def)
qed

lemma submitObjective_accepted:
  assumes "submitObjective tz now today obj = Accepted obj' n"
  shows "obj' = obj\<lparr>lastSubmitted := Some (int now),
                   streak := (if isConsecutive tz (frequency obj) (int today) (lastStreakDay obj)
                              then streak obj + 1 else 1),
                   lastStreakDay := Some (Day (int today))\<rparr>"
    and "n = assignNextAllowed (frequency obj) (int now) (nextAllowedBefore obj)"
  using assms by (auto simp: submitObjective_def Let_def toISODate_def split: if_splits)

lemma submitObjective_cases:
  "(int now < nextAllowedBefore obj \<and>
      submitObjective tz now today obj = CooldownActive (nextAllowedBefore obj)) \<or>
   (nextAllowedBefore obj \<le> int now \<and>
      (\<exists>obj' n. submitObjective tz now today obj = Accepted obj' n))"
proof (cases "int now < nextAllowedBefore obj")
  case True
  then show ?thesis by (simp add: submitObjective_cooldown)
next
  case False
  then have "\<exists>obj' n. submitObjective tz now today obj = Accepted obj' n"
    by (simp add: submitObjective_def Let_def)
  with False show ?thesis by simp
qed

lemma submit_accepted:
  assumes "getObjective uid oname d = Some obj" and "oname \<noteq> []"
    and "submitObjective tz now today obj = Accepted obj' n"
  shows "submit tz now today uid (Some url) (Some oname) d =
           (Completed oname (if 3 < streak obj' then Some (streak obj') else None)
              url uid (n div 1000),
            upsertObjective obj' d)"
  using assms by (simp add: submit_def)

lemma day_diff: "(today - parseISODate day) div msPerDay = Day today - day"
proof -
  have "(today + (- day) * msPerDay) div msPerDay = today div msPerDay + (- day)"
    using div_mult_self1 [of msPerDay today "- day"] by (simp add: msPerDay_def)
  then show ?thesis by (simp add: parseISODate_def Day_def)
qed

lemma week_diff: "(today - parseISODate day) div (7 * msPerDay) = (Day today - day) div 7"
proof -
  have "(today - parseISODate day) div (msPerDay * 7) =
        (today - parseISODate day) div msPerDay div 7"
    by (rule zdiv_zmult2_eq) simp
  then show ?thesis by (simp add: day_diff mult.commute)
qed

lemma one_week: "((n::int) div 7 = 1) = (7 \<le> n \<and> n \<le> 13)"
  by presburger

lemma MonthFromTime_range: "0 \<le> MonthFromTime t \<and> MonthFromTime t \<le> 11"
  by (simp add: MonthFromTime_def Let_def)

lemma isConsecutive_unknown:
  "f \<noteq> ''daily'' \<Longrightarrow> f \<noteq> ''weekly'' \<Longrightarrow> f \<noteq> ''monthly'' \<Longrightarrow>
   \<not> isConsecutive tz f today lsd"
  by (simp add: isConsecutive_def Let_def split: option.splits)

section \<open>The cooldown test\<close>

text \<open>
  Claim C1. For a stored row whose \<^verbatim>\<open>lastSubmitted\<close> is set, a submit at the clock
  reading \<open>now\<close> is answered with the cooldown message for \<^verbatim>\<open>nextAllowed\<close> if and
  only if \<open>now < nextAllowed\<close>, where \<^verbatim>\<open>nextAllowed\<close> is the value the handler has
  computed at the test. On that answer the table is returned as it was: nothing is
  written. A submit with \<open>now = nextAllowed\<close> is accepted, and its record is upserted.
\<close>

theorem submit_cooldown_iff:
  assumes "getObjective uid oname d = Some obj" and "lastSubmitted obj = Some ls"
    and "oname \<noteq> []"
  shows "(submitObjective tz now today obj = CooldownActive (nextAllowedBefore obj)
            \<longleftrightarrow> int now < nextAllowedBefore obj) \<and>
         ((\<exists>n. submitObjective tz now today obj = CooldownActive n)
            \<longleftrightarrow> int now < nextAllowedBefore obj) \<and>
         (int now < nextAllowedBefore obj \<longrightarrow>
            submit tz now today uid (Some url) (Some oname) d =
              (AlreadySubmitted oname (nextAllowedBefore obj div 1000), d)) \<and>
         (int now = nextAllowedBefore obj \<longrightarrow>
            (\<exists>obj' n. submitObjective tz now today obj = Accepted obj' n \<and>
               lastSubmitted obj' = Some (int now) \<and>
               snd (submit tz now today uid (Some url) (Some oname) d) =
                 upsertObjective obj' d))"
proof (intro conjI impI)
  show "submitObjective tz now today obj = CooldownActive (nextAllowedBefore obj)
          \<longleftrightarrow> int now < nextAllowedBefore obj"
    by (simp add: submitObjective_cooldown)
next
  show "(\<exists>n. submitObjective tz now today obj = CooldownActive n)
          \<longleftrightarrow> int now < nextAllowedBefore obj"
    by (simp add: submitObjective_cooldown)
next
  assume "int now < nextAllowedBefore obj"
  then have "submitObjective tz now today obj = CooldownActive (nextAllowedBefore obj)"
    by (simp add: submitObjective_cooldown)
  with assms show "submit tz now today uid (Some url) (Some oname) d =
      (AlreadySubmitted oname (nextAllowedBefore obj div 1000), d)"
    by (simp add: submit_def)
next
  assume "int now = nextAllowedBefore obj"
  with submitObjective_cases [of now obj tz today]
  obtain obj' n where acc: "submitObjective tz now today obj = Accepted obj' n"
    by auto
  from submitObjective_accepted(1) [OF acc]
  have ls: "lastSubmitted obj' = Some (int now)" by simp
  from submit_accepted [OF assms(1,3) acc]
  have "snd (submit tz now today uid (Some url) (Some oname) d) = upsertObjective obj' d"
    by simp
  with acc ls show "\<exists>obj' n. submitObjective tz now today obj = Accepted obj' n \<and>
      lastSubmitted obj' = Some (int now) \<and>
      snd (submit tz now today uid (Some url) (Some oname) d) = upsertObjective obj' d"
    by blast
qed

lemma dailyRow_nextAllowed: "nextAllowedBefore dailyRow = 1700079200000"
  by (simp add: nextAllowedBefore_def dailyRow_def assignNextAllowed_def)

lemma dailyRow_get: "getObjective ''42'' ''run'' [dailyRow, otherRow] = Some dailyRow"
  by (simp add: getObjective_def hasKey_def dailyRow_def)

text \<open>
  The row submitted at 1700000000000 may be submitted again from 1700079200000 on: one
  millisecond earlier the command is refused and the table stays, at that instant it is
  accepted.
\<close>

theorem submit_cooldown_iff_witness:
  "submit utc 1700079199999 1700079199999 ''42'' (Some ''img'') (Some ''run'')
       [dailyRow, otherRow] =
     (AlreadySubmitted ''run'' 1700079200, [dailyRow, otherRow]) \<and>
   (\<exists>obj' n. submitObjective utc 1700079200000 1700079200001 dailyRow = Accepted obj' n \<and>
      lastSubmitted obj' = Some 1700079200000)"
proof -
  have ls: "lastSubmitted dailyRow = Some 1700000000000"
    by (simp add: dailyRow_def)
  have nm: "''run'' \<noteq> []" by simp
  note inst = submit_cooldown_iff [OF dailyRow_get ls nm]
  from inst [of utc 1700079199999 1700079199999 "''img''"]
  have a: "submit utc 1700079199999 1700079199999 ''42'' (Some ''img'') (Some ''run'')
       [dailyRow, otherRow] =
     (AlreadySubmitted ''run'' 1700079200, [dailyRow, otherRow])"
    by (simp add: dailyRow_nextAllowed)
  from inst [of utc 1700079200000 1700079200001 "''img''"]
  have b: "\<exists>obj' n. submitObjective utc 1700079200000 1700079200001 dailyRow = Accepted obj' n \<and>
      lastSubmitted obj' = Some 1700079200000"
    by (simp add: dailyRow_nextAllowed) blast
  from a b show ?thesis by simp
qed

section \<open>The cooldown offsets\<close>

text \<open>
  Claim C2, as amended. For a row whose \<^verbatim>\<open>lastSubmitted\<close> is set and is not 0, the
  handler computes \<^verbatim>\<open>nextAllowed\<close> at the cooldown test as \<open>lastSubmitted\<close> plus 22
  hours for daily, 162 hours for weekly and 714 hours for monthly. For every set
  \<^verbatim>\<open>lastSubmitted\<close>, 0 included, that value is strictly below \<open>lastSubmitted\<close> plus
  24, 168 and 720 hours. After an accepted submit at \<open>now\<close> the record has
  \<open>lastSubmitted = now\<close> and the \<^verbatim>\<open>nextAllowed\<close> of the reply is \<open>now\<close> plus the same
  offsets, again strictly below \<open>now\<close> plus the nominal period.
\<close>

theorem nextAllowed_offsets:
  assumes "lastSubmitted obj = Some ls"
  shows "(ls \<noteq> 0 \<longrightarrow>
            (frequency obj = ''daily'' \<longrightarrow> nextAllowedBefore obj = ls + 22 * msPerHour) \<and>
            (frequency obj = ''weekly'' \<longrightarrow> nextAllowedBefore obj = ls + 162 * msPerHour) \<and>
            (frequency obj = ''monthly'' \<longrightarrow> nextAllowedBefore obj = ls + 714 * msPerHour)) \<and>
         (frequency obj = ''daily'' \<longrightarrow> nextAllowedBefore obj < ls + 24 * msPerHour) \<and>
         (frequency obj = ''weekly'' \<longrightarrow> nextAllowedBefore obj < ls + 168 * msPerHour) \<and>
         (frequency obj = ''monthly'' \<longrightarrow> nextAllowedBefore obj < ls + 720 * msPerHour) \<and>
         (\<forall>obj' n. submitObjective tz now today obj = Accepted obj' n \<longrightarrow>
            lastSubmitted obj' = Some (int now) \<and>
            (frequency obj' = ''daily'' \<longrightarrow>
               n = int now + 22 * msPerHour \<and> n < int now + 24 * msPerHour) \<and>
            (frequency obj' = ''weekly'' \<longrightarrow>
               n = int now + 162 * msPerHour \<and> n < int now + 168 * msPerHour) \<and>
            (frequency obj' = ''monthly'' \<longrightarrow>
               n = int now + 714 * msPerHour \<and> n < int now + 720 * msPerHour))"
proof -
  have before: "nextAllowedBefore obj =
      (if ls \<noteq> 0 then assignNextAllowed (frequency obj) ls 0 else 0)"
    using assms by (simp add: nextAllowedBefore_def)
  have pos: "0 < msPerHour" by (simp add: msPerHour_def)
  have 1: "ls \<noteq> 0 \<longrightarrow>
            (frequency obj = ''daily'' \<longrightarrow> nextAllowedBefore obj = ls + 22 * msPerHour) \<and>
            (frequency obj = ''weekly'' \<longrightarrow> nextAllowedBefore obj = ls + 162 * msPerHour) \<and>
            (frequency obj = ''monthly'' \<longrightarrow> nextAllowedBefore obj = ls + 714 * msPerHour)"
    by (simp add: before assign_known)
  have 2: "frequency obj = ''daily'' \<longrightarrow> nextAllowedBefore obj < ls + 24 * msPerHour"
    using pos by (simp add: before assign_known)
  have 3: "frequency obj = ''weekly'' \<longrightarrow> nextAllowedBefore obj < ls + 168 * msPerHour"
    using pos by (simp add: before assign_known)
  have 4: "frequency obj = ''monthly'' \<longrightarrow> nextAllowedBefore obj < ls + 720 * msPerHour"
    using pos by (simp add: before assign_known)
  have 5: "lastSubmitted obj' = Some (int now) \<and>
            (frequency obj' = ''daily'' \<longrightarrow>
               n = int now + 22 * msPerHour \<and> n < int now + 24 * msPerHour) \<and>
            (frequency obj' = ''weekly'' \<longrightarrow>
               n = int now + 162 * msPerHour \<and> n < int now + 168 * msPerHour) \<and>
            (frequency obj' = ''monthly'' \<longrightarrow>
               n = int now + 714 * msPerHour \<and> n < int now + 720 * msPerHour)"
    if acc: "submitObjective tz now today obj = Accepted obj' n" for obj' n
  proof -
    from submitObjective_accepted [OF acc]
    have f: "frequency obj' = frequency obj" and l: "lastSubmitted obj' = Some (int now)"
      and n: "n = assignNextAllowed (frequency obj) (int now) (nextAllowedBefore obj)"
      by simp_all
    show ?thesis using pos by (auto simp: f l n assign_known)
  qed
  from 1 2 3 4 5 show ?thesis by blast
qed

text \<open>
  The weekly row submitted at 1700000000000: 162 hours later is 1700583200000, before
  the 168 hours that end at 1700604800000; the reply to a submit at 1700600000000 names
  1701183200000.
\<close>

theorem nextAllowed_offsets_witness:
  "nextAllowedBefore weeklyRow = 1700583200000 \<and>
   nextAllowedBefore weeklyRow < 1700604800000 \<and>
   (\<exists>obj'. submitObjective utc 1700600000000 1700600000000 weeklyRow =
      Accepted obj' 1701183200000)"
proof -
  have ls: "lastSubmitted weeklyRow = Some 1700000000000"
    by (simp add: weeklyRow_def dailyRow_def)
  have f: "frequency weeklyRow = ''weekly''"
    by (simp add: weeklyRow_def)
  obtain obj' n where acc: "submitObjective utc 1700600000000 1700600000000 weeklyRow = Accepted obj' n"
    using submitObjective_cases [of 1700600000000 weeklyRow utc 1700600000000]
    by (auto simp: nextAllowedBefore_def assignNextAllowed_def ls f)
  from submitObjective_accepted(1) [OF acc] have f': "frequency obj' = ''weekly''"
    by (simp add: f)
  from nextAllowed_offsets [OF ls, of utc 1700600000000 1700600000000] acc f f'
  have "nextAllowedBefore weeklyRow = 1700583200000"
    and "nextAllowedBefore weeklyRow < 1700604800000"
    and "n = 1701183200000"
    by (simp_all add: msPerHour_def)
  with acc show ?thesis by simp
qed

text \<open>
  The claim as stated fails on a row whose \<^verbatim>\<open>lastSubmitted\<close> is 0: the column is set,
  the test \<^verbatim>\<open>if (obj.lastSubmitted)\<close> is false, and \<^verbatim>\<open>nextAllowed\<close> stays 0 instead
  of 22 hours after the epoch. A submit one millisecond after the epoch is accepted
  accordingly.
\<close>

theorem nextAllowed_offsets_counterexample:
  "lastSubmitted epochRow = Some 0 \<and> frequency epochRow = ''daily'' \<and>
   nextAllowedBefore epochRow = 0 \<and>
   nextAllowedBefore epochRow \<noteq> 0 + 22 * msPerHour \<and>
   submitObjective utc 1 1 epochRow =
     Accepted (epochRow\<lparr>lastSubmitted := Some 1, streak := 1, lastStreakDay := Some 0\<rparr>)
       79200001"
  by (simp add: epochRow_def dailyRow_def nextAllowedBefore_def msPerHour_def
      submitObjective_def truthy_def isConsecutive_def parseISODate_def toISODate_def
      Day_def msPerDay_def assignNextAllowed_def Let_def)

section \<open>An unrecognized frequency\<close>

text \<open>
  Claim C7. For a row whose frequency is none of daily, weekly and monthly,
  \<^verbatim>\<open>nextAllowed\<close> is 0 at the cooldown test whatever \<^verbatim>\<open>lastSubmitted\<close> is, no submit
  at any clock reading is answered with the cooldown message, every submit is accepted
  with the ordinary completion reply, and the \<^verbatim>\<open>nextAllowed\<close> of that reply is still 0.
\<close>

theorem unknown_frequency_always_eligible:
  assumes "frequency obj \<notin> {''daily'', ''weekly'', ''monthly''}"
  shows "nextAllowedBefore obj = 0 \<and>
         (\<forall>n. submitObjective tz now today obj \<noteq> CooldownActive n) \<and>
         (\<exists>obj'. submitObjective tz now today obj = Accepted obj' 0) \<and>
         (getObjective uid oname d = Some obj \<and> oname \<noteq> [] \<longrightarrow>
            (\<exists>shown. fst (submit tz now today uid (Some url) (Some oname) d) =
               Completed oname shown url uid 0))"
proof -
  from assms have f: "frequency obj \<noteq> ''daily''" "frequency obj \<noteq> ''weekly''"
    "frequency obj \<noteq> ''monthly''"
    by simp_all
  then have zero: "nextAllowedBefore obj = 0" by (rule nextAllowedBefore_unknown)
  then have never: "submitObjective tz now today obj \<noteq> CooldownActive n" for n
    by (simp add: submitObjective_cooldown)
  from zero submitObjective_cases [of now obj tz today]
  obtain obj' n where acc: "submitObjective tz now today obj = Accepted obj' n"
    by auto
  from submitObjective_accepted(2) [OF acc] f zero have n: "n = 0"
    by (simp add: assign_unknown)
  have "\<exists>shown. fst (submit tz now today uid (Some url) (Some oname) d) =
      Completed oname shown url uid 0"
    if "getObjective uid oname d = Some obj" and "oname \<noteq> []"
    using submit_accepted [OF that acc] n by simp
  with zero never acc n show ?thesis by blast
qed

text \<open>
  The row with the frequency \<^verbatim>\<open>yearly\<close> is accepted one millisecond after its last
  submission.
\<close>

theorem unknown_frequency_always_eligible_witness:
  "nextAllowedBefore yearlyRow = 0 \<and>
   (\<exists>obj'. submitObjective utc 1700000000001 1700000000001 yearlyRow = Accepted obj' 0) \<and>
   (\<exists>shown. fst (submit utc 1700000000001 1700000000001 ''42'' (Some ''img'') (Some ''run'')
       [yearlyRow]) = Completed ''run'' shown ''img'' ''42'' 0)"
proof -
  have f: "frequency yearlyRow \<notin> {''daily'', ''weekly'', ''monthly''}"
    by (simp add: yearlyRow_def)
  have g: "getObjective ''42'' ''run'' [yearlyRow] = Some yearlyRow \<and> ''run'' \<noteq> []"
    by (simp add: getObjective_def hasKey_def yearlyRow_def dailyRow_def)
  from unknown_frequency_always_eligible [OF f, of utc 1700000000001 1700000000001
      "''42''" "''run''" "[yearlyRow]" "''img''"] g
  show ?thesis by simp
qed

section \<open>The streak of the three frequencies\<close>

lemma day_eleven: "Day 950400000 = 11" "Day 1036799999 = 11" "Day 1036800000 = 12"
  by (simp_all add: Day_def msPerDay_def)

text \<open>
  Claim C3. For a daily objective with a stored \<^verbatim>\<open>lastStreakDay\<close>, the submission
  is consecutive if and only if the UTC calendar day of the submission is the day after
  \<^verbatim>\<open>lastStreakDay\<close>: the difference of the two day numbers is 1, whatever the time of
  day. After day 10, every instant of day 11 is consecutive and day 12 is not.
\<close>

theorem daily_consecutive:
  "isConsecutive tz ''daily'' today (Some day) = (Day today - day = 1) \<and>
   isConsecutive tz ''daily'' 950400000 (Some 10) \<and>
   isConsecutive tz ''daily'' 1036799999 (Some 10) \<and>
   \<not> isConsecutive tz ''daily'' 1036800000 (Some 10)"
proof -
  have "isConsecutive tz ''daily'' t (Some d) = (Day t - d = 1)" for t d
    using day_diff [of t d] by (simp add: isConsecutive_def Let_def msPerDay_def)
  then show ?thesis by (simp add: day_eleven)
qed

text \<open>
  The daily row was last counted on day 19675. A submit at 2023-11-15T20:14Z, 22 hours
  after the last one, is consecutive; a submit on 2023-11-16 is not.
\<close>

theorem daily_consecutive_witness:
  "isConsecutive utc ''daily'' 1700079240000 (Some 19675) \<and>
   \<not> isConsecutive utc ''daily'' 1700130000000 (Some 19675)"
proof -
  have "Day 1700079240000 = 19676" "Day 1700130000000 = 19677"
    by (simp_all add: Day_def msPerDay_def)
  with daily_consecutive [of utc 1700079240000 19675]
    daily_consecutive [of utc 1700130000000 19675]
  show ?thesis by simp
qed

text \<open>
  Claim C4. For a weekly objective with a stored \<^verbatim>\<open>lastStreakDay\<close>, the submission
  is consecutive if and only if the number of days from \<^verbatim>\<open>lastStreakDay\<close> to the UTC
  day of the submission, divided by 7 and floored, is 1: exactly the distances of 7 to
  13 days, and none of 0 to 6 days.
\<close>

theorem weekly_consecutive:
  "isConsecutive tz ''weekly'' today (Some day) = ((Day today - day) div 7 = 1) \<and>
   isConsecutive tz ''weekly'' today (Some day) =
     (7 \<le> Day today - day \<and> Day today - day \<le> 13) \<and>
   (0 \<le> Day today - day \<and> Day today - day \<le> 6 \<longrightarrow>
      \<not> isConsecutive tz ''weekly'' today (Some day))"
proof -
  have "isConsecutive tz ''weekly'' today (Some day) = ((Day today - day) div 7 = 1)"
    using week_diff [of today day] by (simp add: isConsecutive_def Let_def msPerDay_def)
  then show ?thesis by (simp add: one_week)
qed

text \<open>
  After day 0, a submit at noon of day 10 is consecutive (the example of the
  specification), one at noon of day 6 is not, and neither is one on day 14.
\<close>

theorem weekly_consecutive_witness:
  "isConsecutive utc ''weekly'' 907200000 (Some 0) \<and>
   \<not> isConsecutive utc ''weekly'' 561600000 (Some 0) \<and>
   \<not> isConsecutive utc ''weekly'' 1209600000 (Some 0)"
proof -
  have "Day 907200000 = 10" "Day 561600000 = 6" "Day 1209600000 = 14"
    by (simp_all add: Day_def msPerDay_def)
  with weekly_consecutive [of utc 907200000 0] weekly_consecutive [of utc 561600000 0]
    weekly_consecutive [of utc 1209600000 0]
  show ?thesis by simp
qed

text \<open>
  The monthly test compares the month numbers and the years that \<^verbatim>\<open>getMonth()\<close> and
  \<^verbatim>\<open>getFullYear()\<close> return for the submission and for midnight UTC of the stored
  date, in the local time of the process. In a process that runs in UTC these are the
  month and the year of the UTC date of the submission and of the stored date. Month
  numbers run from 0 to 11, so after a date in December (month 11) no submission is
  consecutive, and a submission in January (month 0) is consecutive after no date.
\<close>

lemma monthly_consecutive:
  "isConsecutive tz ''monthly'' today (Some day) =
     (getMonth tz today = getMonth tz (parseISODate day) + 1 \<and>
      getFullYear tz today = getFullYear tz (parseISODate day)) \<and>
   isConsecutive utc ''monthly'' today (Some day) =
     (MonthFromTime today = MonthFromTime (parseISODate day) + 1 \<and>
      YearFromTime today = YearFromTime (parseISODate day)) \<and>
   (getMonth tz (parseISODate day) = 11 \<longrightarrow>
      \<not> isConsecutive tz ''monthly'' today (Some day)) \<and>
   (getMonth tz today = 0 \<longrightarrow> \<not> isConsecutive tz ''monthly'' today (Some day))"
proof -
  have eq: "isConsecutive z ''monthly'' today (Some day) =
     (getMonth z today = getMonth z (parseISODate day) + 1 \<and>
      getFullYear z today = getFullYear z (parseISODate day))" for z
    by (simp add: isConsecutive_def Let_def)
  have inUTC: "getMonth utc t = MonthFromTime t" "getFullYear utc t = YearFromTime t" for t
    by (simp_all add: getMonth_def getFullYear_def LocalTime_def utc_def)
  have "getMonth tz today \<le> 11" and "0 \<le> getMonth tz (parseISODate day)"
    using MonthFromTime_range [of "LocalTime tz today"]
      MonthFromTime_range [of "LocalTime tz (parseISODate day)"]
    by (simp_all add: getMonth_def)
  with eq [of tz] eq [of utc] show ?thesis by (auto simp: inUTC)
qed

lemma year_2023: "YearFromDay 19675 = 2023" "YearFromDay 19711 = 2023"
  "YearFromDay 19742 = 2024"
  by (simp_all add: YearFromDay_def yearDown.simps DayFromYear_def)

lemma month_examples:
  "getMonth utc (parseISODate 19675) = 10" "getFullYear utc (parseISODate 19675) = 2023"
  "getMonth utc (parseISODate 19711) = 11" "getFullYear utc (parseISODate 19711) = 2023"
  "getMonth utc 1703073600000 = 11" "getFullYear utc 1703073600000 = 2023"
  "getMonth utc 1705752000000 = 0" "getFullYear utc 1705752000000 = 2024"
  by (simp_all add: getMonth_def getFullYear_def LocalTime_def utc_def parseISODate_def
      MonthFromTime_def YearFromTime_def DayWithinYear_def InLeapYear_def Day_def msPerDay_def
      year_2023 DayFromYear_def DaysInYear_def)

text \<open>
  In a process that runs in UTC: after 2023-11-14 a submit on 2023-12-20 is consecutive,
  a submit on 2024-01-20 is not; after 2023-12-20 a submit on 2024-01-20 is not
  consecutive either.
\<close>

lemma monthly_utc_examples:
  "isConsecutive utc ''monthly'' 1703073600000 (Some 19675) \<and>
   \<not> isConsecutive utc ''monthly'' 1705752000000 (Some 19675) \<and>
   \<not> isConsecutive utc ''monthly'' 1705752000000 (Some 19711)"
  using monthly_consecutive [of utc 1703073600000 19675]
    monthly_consecutive [of utc 1705752000000 19675]
    monthly_consecutive [of utc 1705752000000 19711]
  by (simp add: month_examples)

text \<open>
  The months are those of local time. In a process five hours behind UTC the midnight
  that begins 2024-03-01 still belongs to February, so a submit on
  2024-03-20T12:00Z after the stored date 2024-03-01 is consecutive there, and is not in
  a process that runs in UTC.
\<close>

lemma year_2024: "YearFromDay 19782 = 2024" "YearFromDay 19783 = 2024" "YearFromDay 19802 = 2024"
  by (simp_all add: YearFromDay_def yearDown.simps DayFromYear_def)

lemma monthly_local_time_example:
  "isConsecutive behind5 ''monthly'' 1710936000000 (Some 19783) \<and>
   \<not> isConsecutive utc ''monthly'' 1710936000000 (Some 19783)"
  by (simp add: isConsecutive_def Let_def getMonth_def getFullYear_def LocalTime_def utc_def
      behind5_def msPerHour_def parseISODate_def MonthFromTime_def YearFromTime_def
      DayWithinYear_def InLeapYear_def Day_def msPerDay_def year_2024 DayFromYear_def
      DaysInYear_def)

text \<open>
  The turn of the year 2023: day 19692 is 2023-12-01 and day 19723 is 2024-01-01. Five
  hours behind UTC, midnight UTC of 2023-12-01 is an hour of 30 November and
  2024-01-01T02:00Z an hour of 31 December.
\<close>

lemma years_rollover:
  "YearFromDay 19691 = 2023" "YearFromDay 19692 = 2023" "YearFromDay 19722 = 2023"
  "YearFromDay 19723 = 2024"
  by (simp_all add: YearFromDay_def yearDown.simps DayFromYear_def)

lemma months_rollover:
  "MonthFromTime (parseISODate 19692) = 11" "YearFromTime (parseISODate 19692) = 2023"
  "MonthFromTime (parseISODate 19723) = 0" "YearFromTime (parseISODate 19723) = 2024"
  "getMonth behind5 (parseISODate 19692) = 10" "getFullYear behind5 (parseISODate 19692) = 2023"
  "getMonth behind5 1704074400000 = 11" "getFullYear behind5 1704074400000 = 2023"
  "getMonth utc (parseISODate 19692) = 11" "getFullYear utc (parseISODate 19692) = 2023"
  "getMonth utc 1704074400000 = 0" "getFullYear utc 1704074400000 = 2024"
  by (simp_all add: getMonth_def getFullYear_def LocalTime_def utc_def behind5_def
      msPerHour_def parseISODate_def MonthFromTime_def YearFromTime_def DayWithinYear_def
      InLeapYear_def Day_def msPerDay_def years_rollover DayFromYear_def DaysInYear_def)

lemma new_year_consecutive:
  "isConsecutive behind5 ''monthly'' 1704074400000 (Some 19692)"
  "\<not> isConsecutive utc ''monthly'' 1704074400000 (Some 19692)"
  by (simp_all add: isConsecutive_def Let_def months_rollover)

text \<open>
  The first submit of a created monthly row, at 2023-12-01T03:00Z, in any time zone,
  and the second one at 2024-01-01T02:00Z, when the cooldown of 714 hours is over.
\<close>

lemma first_december_submit:
  "submit tz 1701399600000 1701399600000 ''42'' (Some ''img'') (Some ''run'')
     (createObjective ''42'' ''run'' ''monthly'' []) =
   (Completed ''run'' None ''img'' ''42'' 1703970000,
    [\<lparr>userId = ''42'', name = ''run'', frequency = ''monthly'',
      lastSubmitted = Some 1701399600000, streak = 1,
      lastStreakDay = Some 19692, lastReminded = None\<rparr>])"
  by (simp add: submit_def createObjective_def getObjective_def hasKey_def
      submitObjective_def nextAllowedBefore_def truthy_def isConsecutive_def
      assignNextAllowed_def toISODate_def Day_def msPerDay_def upsertObjective_def Let_def)

lemma new_year_submit_behind:
  "submit behind5 1704074400000 1704074400000 ''42'' (Some ''img'') (Some ''run'')
     [\<lparr>userId = ''42'', name = ''run'', frequency = ''monthly'',
      lastSubmitted = Some 1701399600000, streak = 1,
      lastStreakDay = Some 19692, lastReminded = None\<rparr>] =
   (Completed ''run'' None ''img'' ''42'' 1706644800,
    [\<lparr>userId = ''42'', name = ''run'', frequency = ''monthly'',
      lastSubmitted = Some 1704074400000, streak = 2,
      lastStreakDay = Some 19723, lastReminded = None\<rparr>])"
  by (simp add: submit_def getObjective_def hasKey_def
      submitObjective_def nextAllowedBefore_def truthy_def new_year_consecutive
      assignNextAllowed_def toISODate_def Day_def msPerDay_def upsertObjective_def Let_def)

lemma new_year_submit_utc:
  "submit utc 1704074400000 1704074400000 ''42'' (Some ''img'') (Some ''run'')
     [\<lparr>userId = ''42'', name = ''run'', frequency = ''monthly'',
      lastSubmitted = Some 1701399600000, streak = 1,
      lastStreakDay = Some 19692, lastReminded = None\<rparr>] =
   (Completed ''run'' None ''img'' ''42'' 1706644800,
    [\<lparr>userId = ''42'', name = ''run'', frequency = ''monthly'',
      lastSubmitted = Some 1704074400000, streak = 1,
      lastStreakDay = Some 19723, lastReminded = None\<rparr>])"
  by (simp add: submit_def getObjective_def hasKey_def
      submitObjective_def nextAllowedBefore_def truthy_def new_year_consecutive
      assignNextAllowed_def toISODate_def Day_def msPerDay_def upsertObjective_def Let_def)

text \<open>
  Claim C5 says that for a monthly objective with a stored \<^verbatim>\<open>lastStreakDay\<close> an accepted
  submission is consecutive if and only if its month number is the month number of
  \<^verbatim>\<open>lastStreakDay\<close> plus 1 in the same year, so that a submission in January after a
  \<^verbatim>\<open>lastStreakDay\<close> in December is never consecutive. The handler does so in a process
  that runs in UTC, and does not in a process five hours behind UTC. There, a monthly
  row created and submitted at 2023-12-01T03:00Z is stored with the date 2023-12-01; the
  submit at 2024-01-01T02:00Z is accepted and counted consecutive, and the row is stored
  with the streak 2 and the date 2024-01-01. The same two submits in UTC store the
  streak 1.
\<close>

theorem monthly_rollover_behind_utc:
  "submitAll behind5 [(1701399600000, 1701399600000), (1704074400000, 1704074400000)]
       ''42'' ''img'' ''run'' (createObjective ''42'' ''run'' ''monthly'' []) =
     [\<lparr>userId = ''42'', name = ''run'', frequency = ''monthly'',
       lastSubmitted = Some 1704074400000, streak = 2,
       lastStreakDay = Some 19723, lastReminded = None\<rparr>] \<and>
   submitAll utc [(1701399600000, 1701399600000), (1704074400000, 1704074400000)]
       ''42'' ''img'' ''run'' (createObjective ''42'' ''run'' ''monthly'' []) =
     [\<lparr>userId = ''42'', name = ''run'', frequency = ''monthly'',
       lastSubmitted = Some 1704074400000, streak = 1,
       lastStreakDay = Some 19723, lastReminded = None\<rparr>] \<and>
   isConsecutive behind5 ''monthly'' 1704074400000 (Some 19692) \<and>
   MonthFromTime (parseISODate 19692) = 11 \<and> YearFromTime (parseISODate 19692) = 2023 \<and>
   toISODate 1704074400000 = 19723 \<and>
   MonthFromTime (parseISODate 19723) = 0 \<and> YearFromTime (parseISODate 19723) = 2024"
  by (simp add: first_december_submit new_year_submit_behind new_year_submit_utc
      new_year_consecutive months_rollover toISODate_def Day_def msPerDay_def)

text \<open>
  Claim C6. An accepted submit leaves the record with the old streak plus 1 when the
  submission is consecutive and with the streak 1 when it is not, in particular when
  the row has no \<^verbatim>\<open>lastStreakDay\<close> yet; \<^verbatim>\<open>lastStreakDay\<close> becomes the UTC calendar day
  of the submission in both cases. This is the record the command stores.
\<close>

theorem accepted_streak:
  assumes "submitObjective tz now today obj = Accepted obj' n"
  shows "streak obj' =
           (if isConsecutive tz (frequency obj) (int today) (lastStreakDay obj)
            then streak obj + 1 else 1) \<and>
         (lastStreakDay obj = None \<longrightarrow> streak obj' = 1) \<and>
         lastStreakDay obj' = Some (Day (int today)) \<and>
         lastSubmitted obj' = Some (int now) \<and>
         userId obj' = userId obj \<and> name obj' = name obj \<and>
         frequency obj' = frequency obj \<and> lastReminded obj' = lastReminded obj \<and>
         (getObjective uid oname d = Some obj \<and> oname \<noteq> [] \<longrightarrow>
            getObjective uid oname (snd (submit tz now today uid (Some url) (Some oname) d)) =
              Some obj')"
proof -
  note new = submitObjective_accepted(1) [OF assms]
  have none: "lastStreakDay obj = None \<longrightarrow> streak obj' = 1"
    by (simp add: new isConsecutive_def)
  have stored: "getObjective uid oname (snd (submit tz now today uid (Some url) (Some oname) d)) =
      Some obj'"
    if get: "getObjective uid oname d = Some obj" and nm: "oname \<noteq> []"
  proof -
    from getObjective_hasKey [OF get] new have "userId obj' = uid" and "name obj' = oname"
      by simp_all
    with get have "getObjective uid oname (upsertObjective obj' d) = Some obj'"
      by (rule getObjective_upsert)
    with submit_accepted [OF get nm assms] show ?thesis by simp
  qed
  from none stored show ?thesis by (simp add: new)
qed

text \<open>
  The daily row with the streak 4, counted on day 19675: a submit on day 19676 stores the
  streak 5, a submit on day 19677 stores the streak 1, each with the day of the submit.
\<close>

theorem accepted_streak_witness:
  "(\<exists>obj'. getObjective ''42'' ''run''
        (snd (submit utc 1700079240000 1700079240000 ''42'' (Some ''img'') (Some ''run'')
           [dailyRow, otherRow])) = Some obj' \<and>
      streak obj' = 5 \<and> lastStreakDay obj' = Some 19676) \<and>
   (\<exists>obj'. getObjective ''42'' ''run''
        (snd (submit utc 1700130000000 1700130000000 ''42'' (Some ''img'') (Some ''run'')
           [dailyRow, otherRow])) = Some obj' \<and>
      streak obj' = 1 \<and> lastStreakDay obj' = Some 19677)"
proof -
  have days: "Day 1700079240000 = 19676" "Day 1700130000000 = 19677"
    by (simp_all add: Day_def msPerDay_def)
  have cons: "isConsecutive utc ''daily'' 1700079240000 (Some 19675)"
    "\<not> isConsecutive utc ''daily'' 1700130000000 (Some 19675)"
    using day_diff [of 1700079240000 19675] day_diff [of 1700130000000 19675]
    by (simp_all add: isConsecutive_def Let_def msPerDay_def days)
  have row: "frequency dailyRow = ''daily''" "lastStreakDay dailyRow = Some 19675"
    "streak dailyRow = 4"
    by (simp_all add: dailyRow_def)
  have nm: "getObjective ''42'' ''run'' [dailyRow, otherRow] = Some dailyRow \<and> ''run'' \<noteq> []"
    by (simp add: dailyRow_get)
  obtain a na where a: "submitObjective utc 1700079240000 1700079240000 dailyRow = Accepted a na"
    using submitObjective_cases [of 1700079240000 dailyRow utc 1700079240000]
    by (auto simp: dailyRow_nextAllowed)
  obtain b nb where b: "submitObjective utc 1700130000000 1700130000000 dailyRow = Accepted b nb"
    using submitObjective_cases [of 1700130000000 dailyRow utc 1700130000000]
    by (auto simp: dailyRow_nextAllowed)
  from accepted_streak [OF a, of "''42''" "''run''" "[dailyRow, otherRow]" "''img''"] nm
  have 1: "getObjective ''42'' ''run''
        (snd (submit utc 1700079240000 1700079240000 ''42'' (Some ''img'') (Some ''run'')
           [dailyRow, otherRow])) = Some a \<and>
      streak a = 5 \<and> lastStreakDay a = Some 19676"
    by (simp add: row cons days)
  from accepted_streak [OF b, of "''42''" "''run''" "[dailyRow, otherRow]" "''img''"] nm
  have 2: "getObjective ''42'' ''run''
        (snd (submit utc 1700130000000 1700130000000 ''42'' (Some ''img'') (Some ''run'')
           [dailyRow, otherRow])) = Some b \<and>
      streak b = 1 \<and> lastStreakDay b = Some 19677"
    by (simp add: row cons days)
  from 1 2 show ?thesis by blast
qed

section \<open>Facts about the reminder job\<close>

lemma remindedRows_empty: "remindedRows now {} d = d"
  by (simp add: remindedRows_def)

lemma setLastReminded_remindedRows:
  assumes "primaryKey d" and "obj \<in> set d"
  shows "setLastReminded (int now) (userId obj) (name obj) (remindedRows now S d) =
         remindedRows now (insert obj S) d"
proof -
  have "(let r = (if row \<in> S then row\<lparr>lastReminded := Some (int now)\<rparr> else row) in
         if hasKey (userId obj) (name obj) r then r\<lparr>lastReminded := Some (int now)\<rparr> else r) =
        (if row \<in> insert obj S then row\<lparr>lastReminded := Some (int now)\<rparr> else row)"
    if "row \<in> set d" for row
  proof -
    from assms that have k: "(key row = key obj) = (row = obj)"
      by (simp add: primaryKey_row)
    have h: "hasKey (userId obj) (name obj) (row\<lparr>lastReminded := Some (int now)\<rparr>) =
          (key row = key obj)"
      "hasKey (userId obj) (name obj) row = (key row = key obj)"
      by (auto simp: hasKey_def key_def)
    show ?thesis using k h by (auto simp: Let_def)
  qed
  then show ?thesis
    by (simp add: setLastReminded_def remindedRows_def Let_def)
qed

lemma remindAll_remindedRows:
  assumes "primaryKey d" and "set objs \<subseteq> set d"
  shows "remindAll dm now objs (remindedRows now S d, lg) =
         (remindedRows now (S \<union> {obj \<in> set objs. dm obj = Sent}) d,
          lg @ map userId (filter (\<lambda>obj. dm obj = Throws) objs))"
  using assms(2)
proof (induction objs arbitrary: S lg)
  case Nil
  then show ?case by simp
next
  case (Cons obj objs)
  then have mem: "obj \<in> set d" and sub: "set objs \<subseteq> set d" by simp_all
  show ?case
  proof (cases "dm obj")
    case Sent
    have "S \<union> {x \<in> set (obj # objs). dm x = Sent} =
        insert obj S \<union> {x \<in> set objs. dm x = Sent}"
      using Sent by auto
    with Sent Cons.IH [OF sub, of "insert obj S" lg] show ?thesis
      by (simp add: remindOne_def setLastReminded_remindedRows [OF assms(1) mem])
  next
    case NoUser
    have "S \<union> {x \<in> set (obj # objs). dm x = Sent} = S \<union> {x \<in> set objs. dm x = Sent}"
      using NoUser by auto
    with NoUser Cons.IH [OF sub, of S lg] show ?thesis
      by (simp add: remindOne_def)
  next
    case Throws
    have "S \<union> {x \<in> set (obj # objs). dm x = Sent} = S \<union> {x \<in> set objs. dm x = Sent}"
      using Throws by auto
    with Throws Cons.IH [OF sub, of S "lg @ [userId obj]"] show ?thesis
      by (simp add: remindOne_def)
  qed
qed

lemma sweep_rows:
  assumes "primaryKey d"
  shows "sweep dm now d =
     (map (afterSweep dm now) d,
      map userId (filter (\<lambda>obj. dm obj = Throws) (staleObjectives now d)))"
proof -
  have "set (staleObjectives now d) \<subseteq> set d"
    by (simp add: staleObjectives_def)
  from remindAll_remindedRows [OF assms this, of dm now "{}" "[]"]
  show ?thesis
    by (simp add: sweep_def remindedRows_empty)
      (simp add: remindedRows_def staleObjectives_def afterSweep_def)
qed

lemma afterSweep_key: "hasKey u n (afterSweep dm now row) = hasKey u n row"
  by (simp add: afterSweep_def hasKey_def)

lemma getObjective_afterSweep:
  assumes "primaryKey d" and "obj \<in> set d"
  shows "getObjective (userId obj) (name obj) (fst (sweep dm now d)) =
         Some (afterSweep dm now obj)"
proof -
  have "find (hasKey (userId obj) (name obj)) (map (afterSweep dm now) d) =
        map_option (afterSweep dm now) (find (hasKey (userId obj) (name obj)) d)"
    by (rule find_map_key) (rule afterSweep_key)
  with getObjective_row [OF assms] show ?thesis
    by (simp add: sweep_rows [OF assms(1)] getObjective_def)
qed

lemma isStale_iff:
  "isStale cutoff row =
     ((lastSubmitted row = None \<or> (\<exists>ls. lastSubmitted row = Some ls \<and> ls < cutoff)) \<and>
      (lastReminded row = None \<or> (\<exists>lr. lastReminded row = Some lr \<and> lr < cutoff)))"
  by (auto simp: isStale_def split: option.splits)

lemma stale_after_sweep:
  assumes "primaryKey d"
    and "row' \<in> set (staleObjectives now' (fst (sweep dm now d)))"
  shows "\<exists>row \<in> set d. row' = afterSweep dm now row \<and>
           isStale (int now' - 24 * 60 * 60 * 1000) row'"
  using assms(2) by (auto simp: sweep_rows [OF assms(1)] staleObjectives_def)

section \<open>Selection and failures of the reminder job\<close>

text \<open>
  Claim C8. The job run at \<open>now\<close> selects exactly the rows of the table with
  (\<^verbatim>\<open>lastSubmitted\<close> null or below \<open>now\<close> minus 24 hours) and (\<^verbatim>\<open>lastReminded\<close> null
  or below \<open>now\<close> minus 24 hours). A selected row whose message was sent is stored
  with \<open>lastReminded = now\<close> and is otherwise as it was, and a job run on the
  resulting table at any \<open>now'\<close> less than 24 hours after \<open>now\<close> selects no row with
  that key.
\<close>

theorem sweep_selection:
  assumes "primaryKey d"
  shows "(\<forall>row. row \<in> set (staleObjectives now d) \<longleftrightarrow>
            row \<in> set d \<and>
            (lastSubmitted row = None \<or>
               (\<exists>ls. lastSubmitted row = Some ls \<and> ls < int now - 24 * msPerHour)) \<and>
            (lastReminded row = None \<or>
               (\<exists>lr. lastReminded row = Some lr \<and> lr < int now - 24 * msPerHour))) \<and>
         (\<forall>row \<in> set (staleObjectives now d). dm row = Sent \<longrightarrow>
            getObjective (userId row) (name row) (fst (sweep dm now d)) =
              Some (row\<lparr>lastReminded := Some (int now)\<rparr>) \<and>
            (\<forall>now'. int now' < int now + 24 * msPerHour \<longrightarrow>
               (\<forall>row' \<in> set (staleObjectives now' (fst (sweep dm now d))).
                  key row' \<noteq> key row)))"
proof (intro conjI allI ballI impI)
  fix row
  show "row \<in> set (staleObjectives now d) \<longleftrightarrow>
            row \<in> set d \<and>
            (lastSubmitted row = None \<or>
               (\<exists>ls. lastSubmitted row = Some ls \<and> ls < int now - 24 * msPerHour)) \<and>
            (lastReminded row = None \<or>
               (\<exists>lr. lastReminded row = Some lr \<and> lr < int now - 24 * msPerHour))"
    using isStale_iff [of "int now - 24 * msPerHour" row]
    by (simp add: staleObjectives_def msPerHour_def)
next
  fix row
  assume sel: "row \<in> set (staleObjectives now d)" and sent: "dm row = Sent"
  then have mem: "row \<in> set d" and stale: "isStale (int now - 24 * 60 * 60 * 1000) row"
    by (simp_all add: staleObjectives_def)
  from stale sent have after: "afterSweep dm now row = row\<lparr>lastReminded := Some (int now)\<rparr>"
    by (simp add: afterSweep_def)
  with getObjective_afterSweep [OF assms mem, of dm now]
  show "getObjective (userId row) (name row) (fst (sweep dm now d)) =
      Some (row\<lparr>lastReminded := Some (int now)\<rparr>)"
    by simp
  fix now' row'
  assume soon: "int now' < int now + 24 * msPerHour"
    and sel': "row' \<in> set (staleObjectives now' (fst (sweep dm now d)))"
  show "key row' \<noteq> key row"
  proof
    assume same: "key row' = key row"
    from stale_after_sweep [OF assms sel'] obtain r where r: "r \<in> set d"
      and row': "row' = afterSweep dm now r"
      and stale': "isStale (int now' - 24 * 60 * 60 * 1000) row'"
      by blast
    from row' have "key row' = key r" by (simp add: afterSweep_def key_def)
    with same assms mem r have "r = row" by (simp add: primaryKey_row)
    with row' after have "lastReminded row' = Some (int now)" by simp
    with stale' have "int now < int now' - 24 * 60 * 60 * 1000"
      by (simp add: isStale_def)
    with soon show False by (simp add: msPerHour_def)
  qed
qed

text \<open>
  Two rows at 1700090000000, 25 hours after the last submission of the first. Both are
  selected; the first owner gets the message and the row is marked; 23 hours later the
  job no longer selects it.
\<close>

lemma example_table: "primaryKey [dailyRow, otherRow]"
  by (simp add: primaryKey_def key_def dailyRow_def otherRow_def)

lemma example_stale: "staleObjectives 1700090000000 [dailyRow, otherRow] = [dailyRow, otherRow]"
  by (simp add: staleObjectives_def isStale_def dailyRow_def otherRow_def)

theorem sweep_selection_witness:
  "dailyRow \<in> set (staleObjectives 1700090000000 [dailyRow, otherRow]) \<and>
   getObjective ''42'' ''run'' (fst (sweep onlyTo42 1700090000000 [dailyRow, otherRow])) =
     Some (dailyRow\<lparr>lastReminded := Some 1700090000000\<rparr>) \<and>
   dailyRow\<lparr>lastReminded := Some 1700090000000\<rparr> \<notin>
     set (staleObjectives 1700172800000
       (fst (sweep onlyTo42 1700090000000 [dailyRow, otherRow])))"
proof -
  have sel: "dailyRow \<in> set (staleObjectives 1700090000000 [dailyRow, otherRow])"
    by (simp add: example_stale)
  have sent: "onlyTo42 dailyRow = Sent"
    by (simp add: onlyTo42_def dailyRow_def)
  have soon: "int 1700172800000 < int 1700090000000 + 24 * msPerHour"
    by (simp add: msPerHour_def)
  have ids: "userId dailyRow = ''42''" "name dailyRow = ''run''"
    by (simp_all add: dailyRow_def)
  note marked = sweep_selection [OF example_table, of 1700090000000 onlyTo42,
      THEN conjunct2, THEN bspec, OF sel, THEN mp, OF sent]
  from marked [THEN conjunct1]
  have got: "getObjective ''42'' ''run''
        (fst (sweep onlyTo42 1700090000000 [dailyRow, otherRow])) =
      Some (dailyRow\<lparr>lastReminded := Some 1700090000000\<rparr>)"
    by (simp add: ids)
  from marked [THEN conjunct2]
  have later: "\<forall>now'. int now' < int 1700090000000 + 24 * msPerHour \<longrightarrow>
       (\<forall>row' \<in> set (staleObjectives now'
           (fst (sweep onlyTo42 1700090000000 [dailyRow, otherRow]))).
          key row' \<noteq> key dailyRow)"
    by simp
  from later soon
  have "\<forall>row' \<in> set (staleObjectives 1700172800000
           (fst (sweep onlyTo42 1700090000000 [dailyRow, otherRow]))).
          key row' \<noteq> key dailyRow"
    by blast
  then have "dailyRow\<lparr>lastReminded := Some 1700090000000\<rparr> \<notin>
     set (staleObjectives 1700172800000
       (fst (sweep onlyTo42 1700090000000 [dailyRow, otherRow])))"
    by (auto simp: key_def)
  with sel got show ?thesis by simp
qed

text \<open>
  Claim C9. When the delivery for a selected row fails, that row is stored as it was, so
  it is selected again by any later job, and the failure is logged. The other rows are
  treated as if nothing had failed: every selected row whose message was sent is marked
  as reminded at \<open>now\<close>, wherever it stands in the selection.
\<close>

theorem sweep_failure_isolated:
  assumes "primaryKey d"
  shows "(\<forall>row \<in> set (staleObjectives now d). dm row \<noteq> Sent \<longrightarrow>
            getObjective (userId row) (name row) (fst (sweep dm now d)) = Some row \<and>
            (\<forall>now'. now \<le> now' \<longrightarrow> row \<in> set (staleObjectives now' (fst (sweep dm now d))))) \<and>
         (\<forall>row \<in> set (staleObjectives now d). dm row = Sent \<longrightarrow>
            getObjective (userId row) (name row) (fst (sweep dm now d)) =
              Some (row\<lparr>lastReminded := Some (int now)\<rparr>)) \<and>
         fst (sweep dm now d) = map (afterSweep dm now) d \<and>
         snd (sweep dm now d) =
           map userId (filter (\<lambda>row. dm row = Throws) (staleObjectives now d))"
proof (intro conjI ballI impI allI)
  fix row
  assume sel: "row \<in> set (staleObjectives now d)" and failed: "dm row \<noteq> Sent"
  then have mem: "row \<in> set d" and stale: "isStale (int now - 24 * 60 * 60 * 1000) row"
    by (simp_all add: staleObjectives_def)
  from failed have same: "afterSweep dm now row = row"
    by (simp add: afterSweep_def)
  with getObjective_afterSweep [OF assms mem, of dm now]
  show "getObjective (userId row) (name row) (fst (sweep dm now d)) = Some row"
    by simp
  fix now' :: nat
  assume "now \<le> now'"
  with stale have "isStale (int now' - 24 * 60 * 60 * 1000) row"
    by (auto simp: isStale_def split: option.splits)
  moreover from mem same have "row \<in> set (map (afterSweep dm now) d)"
    by force
  ultimately show "row \<in> set (staleObjectives now' (fst (sweep dm now d)))"
    by (simp add: sweep_rows [OF assms] staleObjectives_def)
next
  fix row
  assume sel: "row \<in> set (staleObjectives now d)" and sent: "dm row = Sent"
  then have mem: "row \<in> set d" and stale: "isStale (int now - 24 * 60 * 60 * 1000) row"
    by (simp_all add: staleObjectives_def)
  with sent getObjective_afterSweep [OF assms mem, of dm now]
  show "getObjective (userId row) (name row) (fst (sweep dm now d)) =
      Some (row\<lparr>lastReminded := Some (int now)\<rparr>)"
    by (simp add: afterSweep_def)
next
  show "fst (sweep dm now d) = map (afterSweep dm now) d"
    by (simp add: sweep_rows [OF assms])
next
  show "snd (sweep dm now d) =
      map userId (filter (\<lambda>row. dm row = Throws) (staleObjectives now d))"
    by (simp add: sweep_rows [OF assms])
qed

text \<open>
  The same two rows with the failing row first: the delivery to user 77 throws and is
  logged, that row stays and is selected again an hour later, and the row of user 42
  behind it is still marked.
\<close>

lemma example_stale_rev:
  "staleObjectives 1700090000000 [otherRow, dailyRow] = [otherRow, dailyRow]"
  by (simp add: staleObjectives_def isStale_def dailyRow_def otherRow_def)

theorem sweep_failure_isolated_witness:
  "getObjective ''77'' ''read'' (fst (sweep onlyTo42 1700090000000 [otherRow, dailyRow])) =
     Some otherRow \<and>
   otherRow \<in> set (staleObjectives 1700093600000
     (fst (sweep onlyTo42 1700090000000 [otherRow, dailyRow]))) \<and>
   getObjective ''42'' ''run'' (fst (sweep onlyTo42 1700090000000 [otherRow, dailyRow])) =
     Some (dailyRow\<lparr>lastReminded := Some 1700090000000\<rparr>) \<and>
   snd (sweep onlyTo42 1700090000000 [otherRow, dailyRow]) = [''77'']"
proof -
  have pk: "primaryKey [otherRow, dailyRow]"
    by (simp add: primaryKey_def key_def dailyRow_def otherRow_def)
  have dm: "onlyTo42 dailyRow = Sent" "onlyTo42 otherRow = Throws"
    by (simp_all add: onlyTo42_def dailyRow_def otherRow_def)
  have ids: "userId otherRow = ''77''" "name otherRow = ''read''"
    "userId dailyRow = ''42''" "name dailyRow = ''run''"
    by (simp_all add: dailyRow_def otherRow_def)
  have le: "(1700090000000::nat) \<le> 1700093600000" by simp
  have sel: "otherRow \<in> set (staleObjectives 1700090000000 [otherRow, dailyRow])"
    "dailyRow \<in> set (staleObjectives 1700090000000 [otherRow, dailyRow])"
    by (simp_all add: example_stale_rev)
  have failed: "onlyTo42 otherRow \<noteq> Sent" by (simp add: dm)
  note inst = sweep_failure_isolated [OF pk, of 1700090000000 onlyTo42]
  note stays = inst [THEN conjunct1, THEN bspec, OF sel(1), THEN mp, OF failed]
  note marked = inst [THEN conjunct2, THEN conjunct1, THEN bspec, OF sel(2), THEN mp, OF dm(1)]
  note logged = inst [THEN conjunct2, THEN conjunct2, THEN conjunct2]
  from stays [THEN conjunct1]
  have a: "getObjective ''77'' ''read''
        (fst (sweep onlyTo42 1700090000000 [otherRow, dailyRow])) = Some otherRow"
    by (simp add: ids)
  from stays [THEN conjunct2]
  have b: "\<forall>now'. 1700090000000 \<le> now' \<longrightarrow> otherRow \<in> set (staleObjectives now'
        (fst (sweep onlyTo42 1700090000000 [otherRow, dailyRow])))"
    by simp
  from marked
  have c: "getObjective ''42'' ''run''
        (fst (sweep onlyTo42 1700090000000 [otherRow, dailyRow])) =
        Some (dailyRow\<lparr>lastReminded := Some 1700090000000\<rparr>)"
    by (simp add: ids)
  from logged
  have e: "snd (sweep onlyTo42 1700090000000 [otherRow, dailyRow]) = [''77'']"
    by (simp add: example_stale_rev dm ids)
  from b le have "otherRow \<in> set (staleObjectives 1700093600000
        (fst (sweep onlyTo42 1700090000000 [otherRow, dailyRow])))"
    by blast
  with a c e show ?thesis by simp
qed

section \<open>The streak of an unrecognized frequency\<close>

lemma submit_unknown:
  assumes "frequency obj \<notin> {''daily'', ''weekly'', ''monthly''}"
    and "getObjective uid oname d = Some obj" and "oname \<noteq> []"
  shows "\<exists>obj'. getObjective uid oname
             (snd (submit tz now today uid (Some url) (Some oname) d)) = Some obj' \<and>
           frequency obj' = frequency obj \<and> streak obj' = 1"
proof -
  from assms(1) have f: "frequency obj \<noteq> ''daily''" "frequency obj \<noteq> ''weekly''"
    "frequency obj \<noteq> ''monthly''"
    by simp_all
  then have "nextAllowedBefore obj = 0" by (rule nextAllowedBefore_unknown)
  with submitObjective_cases [of now obj tz today]
  obtain obj' n where acc: "submitObjective tz now today obj = Accepted obj' n"
    by auto
  note new = submitObjective_accepted(1) [OF acc]
  from f have "\<not> isConsecutive tz (frequency obj) (int today) (lastStreakDay obj)"
    by (rule isConsecutive_unknown)
  with new have 1: "frequency obj' = frequency obj" "streak obj' = 1"
    by simp_all
  from getObjective_hasKey [OF assms(2)] new have "userId obj' = uid" "name obj' = oname"
    by simp_all
  with assms(2) have "getObjective uid oname (upsertObjective obj' d) = Some obj'"
    by (rule getObjective_upsert)
  with submit_accepted [OF assms(2,3) acc] 1 show ?thesis by simp
qed

lemma submitAll_unknown:
  assumes "frequency obj \<notin> {''daily'', ''weekly'', ''monthly''}"
    and "getObjective uid oname d = Some obj" and "oname \<noteq> []"
  shows "\<exists>obj'. getObjective uid oname (submitAll tz ts uid url oname d) = Some obj' \<and>
           frequency obj' = frequency obj \<and>
           streak obj' = (if ts = [] then streak obj else 1)"
  using assms(1,2)
proof (induction ts arbitrary: d obj)
  case Nil
  then show ?case by simp
next
  case (Cons t ts)
  obtain now today where t: "t = (now, today)" by (cases t)
  from submit_unknown [OF Cons.prems assms(3), of tz now today url]
  obtain obj1 where get1: "getObjective uid oname
        (snd (submit tz now today uid (Some url) (Some oname) d)) = Some obj1"
    and f1: "frequency obj1 = frequency obj" and s1: "streak obj1 = 1"
    by blast
  from Cons.prems(1) f1 have "frequency obj1 \<notin> {''daily'', ''weekly'', ''monthly''}"
    by simp
  from Cons.IH [OF this get1] f1 s1 t show ?case by auto
qed

text \<open>
  Claim C10. For a row whose frequency is none of daily, weekly and monthly, no
  submission is consecutive, so every accepted submit stores the streak 1: after any
  non-empty run of submit commands the stored streak is 1, and after any run at all on a
  row that began with a streak of at most 1, as every created row does, it is at most 1.
\<close>

theorem unknown_frequency_streak:
  assumes "frequency obj \<notin> {''daily'', ''weekly'', ''monthly''}"
  shows "\<not> isConsecutive tz (frequency obj) t lsd \<and>
         (\<forall>obj' n. submitObjective tz now today obj = Accepted obj' n \<longrightarrow> streak obj' = 1) \<and>
         (getObjective uid oname d = Some obj \<and> oname \<noteq> [] \<longrightarrow>
            (\<exists>obj'. getObjective uid oname (submitAll tz ts uid url oname d) = Some obj' \<and>
               streak obj' = (if ts = [] then streak obj else 1) \<and>
               (streak obj \<le> 1 \<longrightarrow> streak obj' \<le> 1)))"
proof -
  from assms have f: "frequency obj \<noteq> ''daily''" "frequency obj \<noteq> ''weekly''"
    "frequency obj \<noteq> ''monthly''"
    by simp_all
  have never: "\<not> isConsecutive tz (frequency obj) t lsd" for t lsd
    using f by (rule isConsecutive_unknown)
  have one: "streak obj' = 1" if "submitObjective tz now today obj = Accepted obj' n" for obj' n
    using submitObjective_accepted(1) [OF that] never by simp
  have run: "\<exists>obj'. getObjective uid oname (submitAll tz ts uid url oname d) = Some obj' \<and>
               streak obj' = (if ts = [] then streak obj else 1) \<and>
               (streak obj \<le> 1 \<longrightarrow> streak obj' \<le> 1)"
    if "getObjective uid oname d = Some obj" and "oname \<noteq> []"
    using submitAll_unknown [OF assms that, of tz ts url] by auto
  from never one run show ?thesis by blast
qed

text \<open>
  A row created with the frequency \<^verbatim>\<open>yearly\<close> and submitted three times within three
  milliseconds has the streak 1.
\<close>

theorem unknown_frequency_streak_witness:
  "\<exists>obj'. getObjective ''42'' ''run''
       (submitAll utc [(1700000000001, 1700000000001), (1700000000002, 1700000000002),
            (1700000000003, 1700000000003)] ''42'' ''img'' ''run''
          (createObjective ''42'' ''run'' ''yearly'' [])) = Some obj' \<and>
     streak obj' = 1"
proof -
  let ?new = "\<lparr>userId = ''42'', name = ''run'', frequency = ''yearly'',
      lastSubmitted = None, streak = 0, lastStreakDay = None, lastReminded = None\<rparr>"
  have f: "frequency ?new \<notin> {''daily'', ''weekly'', ''monthly''}"
    by simp
  have g: "getObjective ''42'' ''run'' (createObjective ''42'' ''run'' ''yearly'' []) = Some ?new \<and>
      ''run'' \<noteq> []"
    by (simp add: getObjective_def hasKey_def createObjective_def)
  from unknown_frequency_streak [OF f, THEN conjunct2, THEN conjunct2, THEN mp, OF g,
      of utc "[(1700000000001, 1700000000001), (1700000000002, 1700000000002),
            (1700000000003, 1700000000003)]" "''img''"]
  show ?thesis by auto
qed

end
